theory Spec2Isabelle
  imports Main "HOL-Library.Char_ord" "HOL-Library.List_Lexorder"
begin

section \<open>Python values and errors\<close>

text \<open>
  The values that flow through the marshaller. \<open>VDict\<close> is a dict with string keys
  (an association list; keys are distinct, as in a dict). \<open>VObj\<close> is any other object,
  given by all the attributes that \<open>getattr\<close> finds on it, those of its class included.
  Strings are lists of characters, ordered lexicographically by character code, as
  Python orders \<open>str\<close>.
\<close>

datatype pyval =
    VNone
  | VInt int
  | VStr string
  | VList "pyval list"
  | VDict "(string \<times> pyval) list"
  | VObj "(string \<times> pyval) list"

text \<open>Every exception the modelled code can raise; the payload is the message or name.\<close>

datatype error =
    ValueError string
  | AttributeError string
  | KeyError string
  | TypeError string

text \<open>
  A loop that builds a result and stops at the first exception: the results of the
  iterations in order, or the first error.
\<close>

fun collect :: "('e + 'a) list \<Rightarrow> 'e + 'a list" where
  "collect [] = Inr []"
| "collect (r # rs) =
     (case r of
        Inl e \<Rightarrow> Inl e
      | Inr v \<Rightarrow> (case collect rs of Inl e \<Rightarrow> Inl e | Inr vs \<Rightarrow> Inr (v # vs)))"

section \<open>String helpers\<close>

text \<open>
  \<open>str.split(sep)\<close> for a one-character separator: n separators give n + 1 pieces,
  empty pieces are kept, and the empty string gives one empty piece.
\<close>

fun split_on :: "char \<Rightarrow> string \<Rightarrow> string list" where
  "split_on c [] = [[]]"
| "split_on c (x # xs) =
     (if x = c then [] # split_on c xs
      else (case split_on c xs of
              [] \<Rightarrow> [[x]]
            | t # ts \<Rightarrow> (x # t) # ts))"

text \<open>\<open>sep.join(parts)\<close>.\<close>

fun join :: "string \<Rightarrow> string list \<Rightarrow> string" where
  "join sep [] = []"
| "join sep [p] = p"
| "join sep (p # q # ps) = p @ sep @ join sep (q # ps)"

text \<open>\<open>"." in s\<close>, and \<open>s.split(".", 1)\<close> for a string that contains a dot.\<close>

definition has_dot :: "string \<Rightarrow> bool" where
  "has_dot s = (CHR ''.'' \<in> set s)"

definition split_dot :: "string \<Rightarrow> string \<times> string" where
  "split_dot s =
     (takeWhile (\<lambda>c. c \<noteq> CHR ''.'') s, drop 1 (dropWhile (\<lambda>c. c \<noteq> CHR ''.'') s))"

section \<open>FieldSetParser\<close>

text \<open>
  \<open>FieldSetParser(possible_fields)\<close> keeps \<open>set(possible_fields)\<close>; applying it to a
  value is \<open>FieldSetParser.__call__\<close>. The result is \<open>None\<close> for the empty string and
  the set of tokens otherwise; \<open>sorted(unknown)\<close> is the sorted list of a finite set.
\<close>

definition FieldSetParser_call :: "string list \<Rightarrow> pyval \<Rightarrow> error + string set option" where
  "FieldSetParser_call possible_fields v =
     (case v of
        VStr s \<Rightarrow>
          if length s = 0 then Inr None
          else
            (let elements = set (split_on CHR '','' s);
                 unknown = elements - set possible_fields
             in if unknown \<noteq> {}
                then Inl (ValueError (''Unknown fields: '' @ join '', '' (sorted_list_of_set unknown)))
                else Inr (Some elements))
      | _ \<Rightarrow> Inl (ValueError ''Need a str''))"

section \<open>Field declarations and fieldsets\<close>

text \<open>
  The \<open>Meta\<close> options of a fieldset after the Meta classes of its ancestors have
  been merged; \<open>DefaultMeta\<close> is the base configuration.
\<close>

record Meta =
  default_fields :: "string list option"
  default_embedd :: "string list option"
  fields_kw :: string
  embedd_kw :: string

definition DefaultMeta :: Meta where
  "DefaultMeta = \<lparr>default_fields = None, default_embedd = None,
                   fields_kw = ''fields'', embedd_kw = ''embedd''\<rparr>"

text \<open>
  Everything that can be declared in a fieldset or can appear in a marshalling dict.
  \<^item> \<open>ScalarField format default attribute\<close>: a scalar field of the web framework
    (\<open>fields.String\<close>, \<open>fields.Integer\<close>, ...). Its \<open>format\<close> method is not part of
    this repository, so the field carries it as a function. A field declared as a class
    (\<open>name = fields.String\<close>) is represented by its default instance, which is what every
    use site makes of it before calling it.
  \<^item> \<open>ListField container default attribute\<close>: \<open>fields.List(container)\<close>.
  \<^item> \<open>NestedField nested attribute default allow_null\<close>: \<open>fields.Nested(nested, ...)\<close>,
    where \<open>nested\<close> is a marshalling dict. An entry of a marshalling dict may be \<open>None\<close>
    (\<open>key_field()\<close> without a plain key).
  \<^item> \<open>OptionalNestedField nested plain_key default attribute allow_none plain_field\<close>
    and \<open>ObjectMemberField member default attribute member_field\<close>: the two field
    classes of \<open>fields.py\<close>.
  A fieldset is its dict of fields (in the order of the dict) and its meta object.
\<close>

datatype field =
    ScalarField "pyval \<Rightarrow> error + pyval" pyval "string option"
  | ListField field pyval "string option"
  | NestedField "(string \<times> field option) list" "string option" pyval bool
  | OptionalNestedField "fieldset option" "string option" pyval "string option" bool "field option"
  | ObjectMemberField string pyval "string option" "field option"
and fieldset = Fieldset (created_fields: "(string \<times> field) list") (meta: "Meta option")

subsection \<open>OptionalNestedField\<close>

text \<open>
  The class attribute \<open>_optional_nested\<close>, read with \<open>getattr(f, "_optional_nested", None)\<close>,
  and the three methods of \<open>OptionalNestedField\<close>. Calling one of them on another
  kind of field is an \<open>AttributeError\<close>.
\<close>

fun optional_nested :: "field \<Rightarrow> bool" where
  "optional_nested (OptionalNestedField _ _ _ _ _ _) = True"
| "optional_nested _ = False"

fun key_field :: "field \<Rightarrow> error + field option" where
  "key_field (OptionalNestedField _ plain_key dflt attribute _ plain_field) =
     (case plain_key of
        None \<Rightarrow> Inr None
      | Some k \<Rightarrow> Inr (Some (ObjectMemberField k dflt attribute plain_field)))"
| "key_field _ = Inl (AttributeError ''key_field'')"

fun nested_fieldset :: "field \<Rightarrow> error + fieldset option" where
  "nested_fieldset (OptionalNestedField nested _ _ _ _ _) = Inr nested"
| "nested_fieldset _ = Inl (AttributeError ''nested_fieldset'')"

fun nested_kwargs :: "field \<Rightarrow> error + (string option \<times> pyval \<times> bool)" where
  "nested_kwargs (OptionalNestedField _ _ dflt attribute allow_none _) =
     Inr (attribute, dflt, allow_none)"
| "nested_kwargs _ = Inl (AttributeError ''nested_kwargs'')"

subsection \<open>FieldsetBase\<close>

text \<open>\<open>_find_nested\<close>: the names of the fields that are nested, directly or in a list.\<close>

definition find_nested :: "fieldset \<Rightarrow> string list" where
  "find_nested self =
     filter (\<lambda>name.
               case map_of (created_fields self) name of
                 None \<Rightarrow> False
               | Some f \<Rightarrow>
                   optional_nested f \<or>
                   (case f of ListField c _ _ \<Rightarrow> optional_nested c | _ \<Rightarrow> False))
            (map fst (created_fields self))"

text \<open>
  The nested fieldset of a nested field, as \<open>_find_nested_all\<close> and \<open>_find_fields_all\<close>
  get it: from the container of a list, from the field itself otherwise.
\<close>

definition nested_fieldset_of :: "field \<Rightarrow> error + fieldset option" where
  "nested_fieldset_of nested_field =
     (case nested_field of
        ListField c _ _ \<Rightarrow> nested_fieldset c
      | _ \<Rightarrow> nested_fieldset nested_field)"

text \<open>
  \<open>_find_nested_all\<close>, the value of the property \<open>nested_field_names\<close>: every nested
  name, followed by the nested names of its fieldset, prefixed.
\<close>

function find_nested_all :: "fieldset \<Rightarrow> string list" where
  "find_nested_all (Fieldset flds m) =
     concat (map (\<lambda>name.
               name #
               (case map_of flds name of
                  None \<Rightarrow> []
                | Some nested_field \<Rightarrow>
                    (case nested_fieldset_of nested_field of
                       Inr (Some nfs) \<Rightarrow>
                         map (\<lambda>nested_nest_field_name. name @ ''.'' @ nested_nest_field_name)
                             (find_nested_all nfs)
                     | _ \<Rightarrow> [])))
             (find_nested (Fieldset flds m)))"
  by pat_completeness auto
termination
proof -
  have field_size: "size nfs < size f" if "nested_fieldset f = Inr (Some nfs)" for f nfs
    using that by (cases f) auto
  have lookup_size: "size f < size (Fieldset flds m)" if "map_of flds name = Some f"
    for flds :: "(string \<times> field) list" and name f m
  proof -
    have "(name, f) \<in> set flds" using that by (rule map_of_SomeD)
    then have "size f < size_list (size_prod (\<lambda>x. 0) size) flds + 1"
      using size_list_estimation'[of "(name, f)" flds "size f" "size_prod (\<lambda>x. 0) size"]
      by simp
    then show ?thesis by simp
  qed
  have "size nfs < size (Fieldset flds m)"
    if "map_of flds name = Some f" and "nested_fieldset_of f = Inr (Some nfs)"
    for flds :: "(string \<times> field) list" and name f nfs m
  proof -
    have "size nfs < size f"
      using that(2) field_size unfolding nested_fieldset_of_def
      by (cases f) (auto dest: field_size)
    then show ?thesis using lookup_size[OF that(1), of m] by simp
  qed
  then show ?thesis
    by (relation "measure size") (auto simp del: fieldset.size)
qed

text \<open>
  \<open>_find_fields_all\<close>, the value of the property \<open>all_field_names\<close>: every field name,
  then for every nested name the field names of its fieldset, prefixed.
\<close>

function find_fields_all :: "fieldset \<Rightarrow> string list" where
  "find_fields_all (Fieldset flds m) =
     map fst flds @
     concat (map (\<lambda>name.
               case map_of flds name of
                 None \<Rightarrow> []
               | Some nested_field \<Rightarrow>
                   (case nested_fieldset_of nested_field of
                      Inr (Some nfs) \<Rightarrow>
                        map (\<lambda>nested_field_name. name @ ''.'' @ nested_field_name)
                            (find_fields_all nfs)
                    | _ \<Rightarrow> []))
             (find_nested (Fieldset flds m)))"
  by pat_completeness auto
termination
proof -
  have field_size: "size nfs < size f" if "nested_fieldset f = Inr (Some nfs)" for f nfs
    using that by (cases f) auto
  have lookup_size: "size f < size (Fieldset flds m)" if "map_of flds name = Some f"
    for flds :: "(string \<times> field) list" and name f m
  proof -
    have "(name, f) \<in> set flds" using that by (rule map_of_SomeD)
    then have "size f < size_list (size_prod (\<lambda>x. 0) size) flds + 1"
      using size_list_estimation'[of "(name, f)" flds "size f" "size_prod (\<lambda>x. 0) size"]
      by simp
    then show ?thesis by simp
  qed
  have "size nfs < size (Fieldset flds m)"
    if "map_of flds name = Some f" and "nested_fieldset_of f = Inr (Some nfs)"
    for flds :: "(string \<times> field) list" and name f nfs m
  proof -
    have "size nfs < size f"
      using that(2) field_size unfolding nested_fieldset_of_def
      by (cases f) (auto dest: field_size)
    then show ?thesis using lookup_size[OF that(1), of m] by simp
  qed
  then show ?thesis
    by (relation "measure size") (auto simp del: fieldset.size)
qed

abbreviation all_field_names :: "fieldset \<Rightarrow> string list" where
  "all_field_names \<equiv> find_fields_all"

abbreviation nested_field_names :: "fieldset \<Rightarrow> string list" where
  "nested_field_names \<equiv> find_nested_all"

text \<open>\<open>_find_default_fields\<close> and \<open>_find_default_embedd\<close>.\<close>

definition find_default_fields :: "fieldset \<Rightarrow> string set" where
  "find_default_fields self =
     (case meta self of
        None \<Rightarrow> set (map fst (created_fields self))
      | Some m \<Rightarrow>
          (case default_fields m of
             None \<Rightarrow> set (map fst (created_fields self))
           | Some names \<Rightarrow> set names))"

definition find_default_embedd :: "fieldset \<Rightarrow> string set" where
  "find_default_embedd self =
     (case meta self of
        None \<Rightarrow> set (find_nested self)
      | Some m \<Rightarrow>
          (case default_embedd m of
             None \<Rightarrow> set (find_nested self)
           | Some names \<Rightarrow> set names))"

section \<open>Fieldset.marshall_dict\<close>

text \<open>
  \<open>selected if not (selected is None or len(selected) == 0) else default\<close>, the first
  step of \<open>marshall_dict\<close> for both of its arguments.
\<close>

definition or_default :: "string set option \<Rightarrow> string set \<Rightarrow> string set" where
  "or_default selected dflt =
     (case selected of
        None \<Rightarrow> dflt
      | Some s \<Rightarrow> if s = {} then dflt else s)"

text \<open>
  The \<open>defaultdict(set)\<close> that the two loops over the dotted paths fill:
  \<open>filtered paths field\<close> is the set stored under \<open>field\<close>, empty when nothing was stored.
\<close>

definition filtered :: "string set \<Rightarrow> string \<Rightarrow> string set" where
  "filtered paths field =
     snd ` Set.filter (\<lambda>p. fst p = field) (split_dot ` Set.filter has_dot paths)"

text \<open>
  \<open>marshall_dict\<close>. The loop over the set \<open>fields_direct\<close> visits the names in the
  order of the dict of fields; the result is the marshalling dict in that order, or the
  first exception.
\<close>

function marshall_dict ::
  "fieldset \<Rightarrow> string set option \<Rightarrow> string set option
     \<Rightarrow> error + (string \<times> field option) list" where
  "marshall_dict (Fieldset flds m) selected_fields selected_embed =
     (let self = Fieldset flds m;
          selected_fields = or_default selected_fields (find_default_fields self);
          fields_direct = selected_fields \<inter> set (map fst flds);
          selected_embed = or_default selected_embed (find_default_embedd self);
          embed_direct = selected_embed \<inter> fields_direct;
          filtered_nested = filtered (selected_fields - fields_direct);
          filtered_embedd = filtered (selected_embed - embed_direct)
      in collect (map (\<lambda>field.
           case map_of flds field of
             None \<Rightarrow> Inl (KeyError field)
           | Some f \<Rightarrow>
               if field \<in> set (find_nested self) then
                 if field \<in> embed_direct then
                   (case f of
                      ListField c _ _ \<Rightarrow>
                        (case nested_fieldset c of
                           Inl e \<Rightarrow> Inl e
                         | Inr None \<Rightarrow> Inl (AttributeError ''marshall_dict'')
                         | Inr (Some nfs) \<Rightarrow>
                             (case marshall_dict nfs (Some (filtered_nested field))
                                                     (Some (filtered_embedd field)) of
                                Inl e \<Rightarrow> Inl e
                              | Inr plan \<Rightarrow>
                                  (case nested_kwargs c of
                                     Inl e \<Rightarrow> Inl e
                                   | Inr (a, d, n) \<Rightarrow>
                                       Inr (field,
                                            Some (ListField (NestedField plan a d n) VNone None)))))
                    | _ \<Rightarrow>
                        (case nested_fieldset f of
                           Inl e \<Rightarrow> Inl e
                         | Inr None \<Rightarrow> Inl (AttributeError ''marshall_dict'')
                         | Inr (Some nfs) \<Rightarrow>
                             (case marshall_dict nfs (Some (filtered_nested field))
                                                     (Some (filtered_embedd field)) of
                                Inl e \<Rightarrow> Inl e
                              | Inr plan \<Rightarrow>
                                  (case nested_kwargs f of
                                     Inl e \<Rightarrow> Inl e
                                   | Inr (a, d, n) \<Rightarrow>
                                       Inr (field, Some (NestedField plan a d n))))))
                 else
                   (case key_field f of
                      Inl e \<Rightarrow> Inl e
                    | Inr k \<Rightarrow> Inr (field, k))
               else Inr (field, Some f))
         (filter (\<lambda>name. name \<in> fields_direct) (map fst flds))))"
  by pat_completeness auto
termination
proof -
  have field_size: "size nfs < size f" if "nested_fieldset f = Inr (Some nfs)" for f nfs
    using that by (cases f) auto
  have lookup_size: "size f < size (Fieldset flds m)" if "map_of flds name = Some f"
    for flds :: "(string \<times> field) list" and name f m
  proof -
    have "(name, f) \<in> set flds" using that by (rule map_of_SomeD)
    then have "size f < size_list (size_prod (\<lambda>x. 0) size) flds + 1"
      using size_list_estimation'[of "(name, f)" flds "size f" "size_prod (\<lambda>x. 0) size"]
      by simp
    then show ?thesis by simp
  qed
  have direct: "size nfs < size (Fieldset flds m)"
    if "map_of flds name = Some f" and "nested_fieldset f = Inr (Some nfs)"
    for flds :: "(string \<times> field) list" and name f nfs m
    using lookup_size[OF that(1), of m] field_size[OF that(2)] by simp
  have in_list: "size nfs < size (Fieldset flds m)"
    if "map_of flds name = Some (ListField c d a)" and "nested_fieldset c = Inr (Some nfs)"
    for flds :: "(string \<times> field) list" and name c d a nfs m
    using lookup_size[OF that(1), of m] field_size[OF that(2)] by simp
  show ?thesis
    by (relation "measure (\<lambda>(self, _, _). size self)")
       (auto intro: direct in_list simp del: fieldset.size)
qed

section \<open>ObjectMemberField.format and the serialization primitive\<close>

text \<open>
  The attributes of the values of the built-in types (\<open>(5).real\<close>, the methods of a
  \<open>str\<close>, a \<open>list\<close> or a \<open>dict\<close>, ...) belong to the interpreter and not to the
  repository, so the lookup of such an attribute is a parameter of the model:
  \<open>builtin v name\<close> is the attribute \<open>name\<close> of the built-in value \<open>v\<close>, or \<open>None\<close>
  when \<open>v\<close> has no such attribute. The attributes of an object are those it is given by.
\<close>

type_synonym builtin_attrs = "pyval \<Rightarrow> string \<Rightarrow> pyval option"

definition lookup_attribute :: "builtin_attrs \<Rightarrow> pyval \<Rightarrow> string \<Rightarrow> pyval option" where
  "lookup_attribute builtin v name =
     (case v of
        VObj attrs \<Rightarrow> map_of attrs name
      | _ \<Rightarrow> builtin v name)"

text \<open>
  \<open>hasattr(value, name)\<close>, \<open>getattr(value, name)\<close> and \<open>getattr(value, name, default)\<close>.
\<close>

definition py_hasattr :: "builtin_attrs \<Rightarrow> pyval \<Rightarrow> string \<Rightarrow> bool" where
  "py_hasattr builtin v name = (lookup_attribute builtin v name \<noteq> None)"

definition py_getattr :: "builtin_attrs \<Rightarrow> pyval \<Rightarrow> string \<Rightarrow> error + pyval" where
  "py_getattr builtin v name =
     (case lookup_attribute builtin v name of
        None \<Rightarrow> Inl (AttributeError name)
      | Some a \<Rightarrow> Inr a)"

definition py_getattr_default :: "builtin_attrs \<Rightarrow> pyval \<Rightarrow> string \<Rightarrow> pyval \<Rightarrow> pyval" where
  "py_getattr_default builtin v name dflt =
     (case lookup_attribute builtin v name of
        None \<Rightarrow> dflt
      | Some a \<Rightarrow> a)"

text \<open>
  Modelled from the spec: the web framework's lookup \<open>get_value(key, obj)\<close>, which is
  not in the repository. A string key is a dotted path; each part is looked up as an item
  of a dict and else as an attribute; an integer key indexes a list; whatever is missing
  is \<open>None\<close>.
\<close>

datatype key = KStr string | KInt nat

definition get_value_for_key :: "builtin_attrs \<Rightarrow> key \<Rightarrow> pyval \<Rightarrow> pyval" where
  "get_value_for_key builtin k obj =
     (case k of
        KStr name \<Rightarrow>
          (case obj of
             VDict d \<Rightarrow>
               (case map_of d name of
                  None \<Rightarrow> py_getattr_default builtin obj name VNone
                | Some v \<Rightarrow> v)
           | _ \<Rightarrow> py_getattr_default builtin obj name VNone)
      | KInt i \<Rightarrow>
          (case obj of
             VList vs \<Rightarrow> (if i < length vs then vs ! i else VNone)
           | _ \<Rightarrow> VNone))"

definition get_value :: "builtin_attrs \<Rightarrow> key \<Rightarrow> pyval \<Rightarrow> pyval" where
  "get_value builtin k obj =
     (case k of
        KInt i \<Rightarrow> get_value_for_key builtin k obj
      | KStr name \<Rightarrow>
          foldl (\<lambda>ob part. get_value_for_key builtin (KStr part) ob) obj
                (split_on CHR ''.'' name))"

text \<open>\<open>key if self.attribute is None else self.attribute\<close>.\<close>

definition source_key :: "string option \<Rightarrow> key \<Rightarrow> key" where
  "source_key attribute k = (case attribute of None \<Rightarrow> k | Some a \<Rightarrow> KStr a)"

text \<open>
  Modelled from the spec: the serialization primitive of the web framework that applies a
  marshalling dict to an object (\<open>marshal\<close>, and the \<open>output\<close> and \<open>format\<close> methods of
  \<open>fields.Raw\<close>, \<open>fields.Nested\<close> and \<open>fields.List\<close>), which is not in the repository:
  a flat copy of every scalar to its output value, a nested mapping for every nested
  dict, a list for every list.
  \<^item> \<open>marshal builtin data plan\<close>: a list is marshalled element by element; otherwise every entry
    of the dict outputs its value from \<open>data\<close>; an entry that is \<open>None\<close> has no \<open>output\<close>.
  \<^item> \<open>field_output builtin f key obj\<close>: the value is looked up under the field's attribute or
    else under the key. A scalar, and the two field classes of this repository, which
    inherit \<open>output\<close> from \<open>fields.Raw\<close>, give the default for \<open>None\<close> and the formatted
    value otherwise. A nested field gives \<open>None\<close> or its default for \<open>None\<close>, as its
    options say, and marshals the value otherwise. A list field formats a list, gives the
    default for \<open>None\<close>, and wraps any other value, marshalled, in a list.
  \<^item> \<open>field_format builtin f value\<close>: the field's own \<open>format\<close>; the identity where the class
    inherits it from \<open>fields.Raw\<close>; for a list the outputs of the container at every index.
  The equation for \<open>ObjectMemberField\<close> is \<open>ObjectMemberField.format\<close> of \<open>fields.py\<close>.
\<close>

function marshal ::
    "builtin_attrs \<Rightarrow> pyval \<Rightarrow> (string \<times> field option) list \<Rightarrow> error + pyval"
  and field_output :: "builtin_attrs \<Rightarrow> field \<Rightarrow> key \<Rightarrow> pyval \<Rightarrow> error + pyval"
  and field_format :: "builtin_attrs \<Rightarrow> field \<Rightarrow> pyval \<Rightarrow> error + pyval"
where
  "marshal builtin data plan =
     (case data of
        VList ds \<Rightarrow>
          (case collect (map (\<lambda>d. marshal builtin d plan) ds) of
             Inl e \<Rightarrow> Inl e
           | Inr outs \<Rightarrow> Inr (VList outs))
      | _ \<Rightarrow>
          (case collect (map (\<lambda>(k, v).
                   case v of
                     None \<Rightarrow> Inl (AttributeError ''output'')
                   | Some f \<Rightarrow>
                       (case field_output builtin f (KStr k) data of
                          Inl e \<Rightarrow> Inl e
                        | Inr out \<Rightarrow> Inr (k, out))) plan) of
             Inl e \<Rightarrow> Inl e
           | Inr items \<Rightarrow> Inr (VDict items)))"
| "field_output builtin (ScalarField fmt dflt attribute) k obj =
     (let v = get_value builtin (source_key attribute k) obj
      in if v = VNone then Inr dflt
         else field_format builtin (ScalarField fmt dflt attribute) v)"
| "field_output builtin (ObjectMemberField member dflt attribute member_field) k obj =
     (let v = get_value builtin (source_key attribute k) obj
      in if v = VNone then Inr dflt
         else field_format builtin (ObjectMemberField member dflt attribute member_field) v)"
| "field_output builtin
       (OptionalNestedField nested plain_key dflt attribute allow_none plain_field) k obj =
     (let v = get_value builtin (source_key attribute k) obj
      in if v = VNone then Inr dflt
         else field_format builtin
                (OptionalNestedField nested plain_key dflt attribute allow_none plain_field) v)"
| "field_output builtin (NestedField nested attribute dflt allow_null) k obj =
     (let v = get_value builtin (source_key attribute k) obj
      in if v = VNone \<and> allow_null then Inr VNone
         else if v = VNone \<and> dflt \<noteq> VNone then Inr dflt
         else marshal builtin v nested)"
| "field_output builtin (ListField c dflt attribute) k obj =
     (let v = get_value builtin (source_key attribute k) obj
      in case v of
           VList vs \<Rightarrow> field_format builtin (ListField c dflt attribute) v
         | VNone \<Rightarrow> Inr dflt
         | _ \<Rightarrow>
             (case c of
                NestedField nested _ _ _ \<Rightarrow>
                  (case marshal builtin v nested of
                     Inl e \<Rightarrow> Inl e
                   | Inr out \<Rightarrow> Inr (VList [out]))
              | _ \<Rightarrow> Inl (AttributeError ''nested'')))"
| "field_format builtin (ScalarField fmt dflt attribute) v = fmt v"
| "field_format builtin (NestedField nested attribute dflt allow_null) v = Inr v"
| "field_format builtin
       (OptionalNestedField nested plain_key dflt attribute allow_none plain_field) v = Inr v"
| "field_format builtin (ListField c dflt attribute) v =
     (case v of
        VList vs \<Rightarrow>
          (case collect (map (\<lambda>idx. field_output builtin c (KInt idx) v) [0..<length vs]) of
             Inl e \<Rightarrow> Inl e
           | Inr outs \<Rightarrow> Inr (VList outs))
      | _ \<Rightarrow> Inl (TypeError ''format''))"
| "field_format builtin (ObjectMemberField member dflt attribute member_field) v =
     (if py_hasattr builtin v member then
        (case py_getattr builtin v member of
           Inl e \<Rightarrow> Inl e
         | Inr attr \<Rightarrow>
             (case member_field of
                None \<Rightarrow> Inr attr
              | Some embedded_instance \<Rightarrow> field_format builtin embedded_instance attr))
      else Inr VNone)"
  by pat_completeness auto
termination
proof -
  have entry: "size f < size_list (size_prod (\<lambda>_. 0) (size_option size)) plan"
    if "(k, Some f) \<in> set plan" for k :: string and f :: field and plan
    using size_list_estimation'[of "(k, Some f)" plan "Suc (size f)"
            "size_prod (\<lambda>_. 0) (size_option size)"] that
    by simp
  have elem: "size d < Suc (size_list size ds)" if "d \<in> set ds" for d :: pyval and ds
    using size_list_estimation'[of d ds "size d" size] that by simp
  show ?thesis
    by (relation "measures
         [\<lambda>x. case x of
                 Inl (b, data, plan) \<Rightarrow>
                   size_list (size_prod (\<lambda>_. 0) (size_option size)) plan
               | Inr (Inl (b, f, k, obj)) \<Rightarrow> size f
               | Inr (Inr (b, f, v)) \<Rightarrow> size f,
          \<lambda>x. case x of
                 Inl (b, data, plan) \<Rightarrow> size data
               | Inr (Inl (b, f, k, obj)) \<Rightarrow> 1
               | Inr (Inr (b, f, v)) \<Rightarrow> 0]")
       (auto simp: entry elem)
qed

section \<open>Marshalling a response\<close>

text \<open>
  Modelled from the spec: the query-argument decoder of the web framework, which is not
  in the repository. A parameter that the request does not carry is \<open>None\<close> and its
  coercion is not called; otherwise the raw string is coerced by the argument's type,
  whose error ends the request.
\<close>

definition parse_argument ::
  "(pyval \<Rightarrow> error + 'a option) \<Rightarrow> string option \<Rightarrow> error + 'a option" where
  "parse_argument coerce raw =
     (case raw of
        None \<Rightarrow> Inr None
      | Some s \<Rightarrow> coerce (VStr s))"

text \<open>
  \<open>Fieldset._parse_request_overrides\<close>: the two arguments are parsed in the order
  in which they were added and stored under their names; the results are read back by
  name. The request is the map from its query parameters to their raw values.
\<close>

definition parse_request_overrides ::
  "fieldset \<Rightarrow> (string \<Rightarrow> string option)
     \<Rightarrow> error + (string set option \<times> string set option)" where
  "parse_request_overrides self request =
     (case meta self of
        None \<Rightarrow> Inl (AttributeError ''fields_kw'')
      | Some m \<Rightarrow>
          (case parse_argument (FieldSetParser_call (all_field_names self))
                               (request (fields_kw m)) of
             Inl e \<Rightarrow> Inl e
           | Inr fields_result \<Rightarrow>
               (case parse_argument (FieldSetParser_call (nested_field_names self))
                                    (request (embedd_kw m)) of
                  Inl e \<Rightarrow> Inl e
                | Inr embedd_result \<Rightarrow>
                    Inr (if fields_kw m = embedd_kw m then embedd_result else fields_result,
                         embedd_result))))"

text \<open>
  What a handler returns: the bare data, or the tuple of data, status code and headers.
\<close>

datatype response =
    Bare pyval
  | Tuple pyval int "(string \<times> string) list"

text \<open>
  The wrapper that \<open>Fieldset.__call__\<close> puts around a handler, applied to the
  handler's result \<open>resp\<close> and the request.
\<close>

definition wrapper ::
  "builtin_attrs \<Rightarrow> fieldset \<Rightarrow> (string \<Rightarrow> string option) \<Rightarrow> response
     \<Rightarrow> error + response" where
  "wrapper builtin self request resp =
     (case parse_request_overrides self request of
        Inl e \<Rightarrow> Inl e
      | Inr (selected_fields, selected_embed) \<Rightarrow>
          (case marshall_dict self selected_fields selected_embed of
             Inl e \<Rightarrow> Inl e
           | Inr marshall_data \<Rightarrow>
               (case resp of
                  Tuple data code headers \<Rightarrow>
                    (case marshal builtin data marshall_data of
                       Inl e \<Rightarrow> Inl e
                     | Inr out \<Rightarrow> Inr (Tuple out code headers))
                | Bare data \<Rightarrow>
                    (case marshal builtin data marshall_data of
                       Inl e \<Rightarrow> Inl e
                     | Inr out \<Rightarrow> Inr (Bare out)))))"

section \<open>The example schema\<close>

text \<open>
  The schema of the examples: the fields \<open>id\<close>, \<open>name\<close> and \<open>owner\<close>, where \<open>owner\<close>
  is an \<open>OptionalNestedField\<close> with plain key \<open>id\<close> over a fieldset with the fields
  \<open>email\<close> and \<open>id\<close>. The formats of the four scalar fields and the meta object of the
  outer fieldset are parameters; \<open>Raw_format\<close> is a format that returns its value
  unchanged, as that of the framework's \<open>fields.Raw\<close> does.
\<close>

definition Raw_format :: "pyval \<Rightarrow> error + pyval" where
  "Raw_format v = Inr v"

definition owner_schema ::
  "(pyval \<Rightarrow> error + pyval) \<Rightarrow> (pyval \<Rightarrow> error + pyval) \<Rightarrow> fieldset" where
  "owner_schema email_format id_format =
     Fieldset [(''email'', ScalarField email_format VNone None),
               (''id'', ScalarField id_format VNone None)]
              (Some DefaultMeta)"

definition example_schema ::
  "(pyval \<Rightarrow> error + pyval) \<Rightarrow> (pyval \<Rightarrow> error + pyval) \<Rightarrow> (pyval \<Rightarrow> error + pyval)
     \<Rightarrow> (pyval \<Rightarrow> error + pyval) \<Rightarrow> Meta option \<Rightarrow> fieldset" where
  "example_schema id_format name_format email_format owner_id_format m =
     Fieldset [(''id'', ScalarField id_format VNone None),
               (''name'', ScalarField name_format VNone None),
               (''owner'', OptionalNestedField (Some (owner_schema email_format owner_id_format))
                                               (Some ''id'') VNone None False None)]
              m"

text \<open>The object of the examples, as a dict of dicts and as an object of objects.\<close>

definition bob_dict :: pyval where
  "bob_dict = VDict [(''id'', VInt 1), (''name'', VStr ''Bob''),
                     (''owner'', VDict [(''id'', VInt 9), (''email'', VStr ''a@b.c'')])]"

definition bob_object :: pyval where
  "bob_object = VObj [(''id'', VInt 1), (''name'', VStr ''Bob''),
                      (''owner'', VObj [(''id'', VInt 9), (''email'', VStr ''a@b.c'')])]"

text \<open>
  A lookup of built-in attributes for the closed examples: \<open>real\<close> and \<open>imag\<close> of an
  \<open>int\<close>, as the interpreter gives them. The examples read no other attribute of a
  built-in value, and the theorems that hold for every lookup do not use this one.
\<close>

definition int_attrs :: builtin_attrs where
  "int_attrs v name =
     (case v of
        VInt n \<Rightarrow>
          (if name = ''real'' then Some (VInt n)
           else if name = ''imag'' then Some (VInt 0)
           else None)
      | _ \<Rightarrow> None)"

text \<open>
  A request that carries the two selection parameters under their default names.
\<close>

definition selection_request :: "string \<Rightarrow> string \<Rightarrow> (string \<Rightarrow> string option)" where
  "selection_request fields_arg embedd_arg =
     [''fields'' \<mapsto> fields_arg, ''embedd'' \<mapsto> embedd_arg]"

section \<open>The selection parser\<close>

text \<open>
  The model of \<open>str.split\<close> is right: joining the pieces with the separator gives the
  string back, and no piece contains the separator.
\<close>

lemma split_on_nonempty: "split_on c s \<noteq> []"
  by (induction s) (auto split: list.splits)

lemma split_on_join: "join [c] (split_on c s) = s"
proof (induction s)
  case Nil
  then show ?case by simp
next
  case (Cons x xs)
  obtain t ts where ts: "split_on c xs = t # ts"
    using split_on_nonempty[of c xs] by (cases "split_on c xs") auto
  show ?case
  proof (cases "x = c")
    case True
    then show ?thesis using Cons ts by simp
  next
    case False
    then show ?thesis using Cons ts by (cases ts) auto
  qed
qed

lemma split_on_no_sep: "t \<in> set (split_on c s) \<Longrightarrow> c \<notin> set t"
proof (induction s arbitrary: t)
  case Nil
  then show ?case by simp
next
  case (Cons x xs)
  then show ?case by (auto split: if_splits list.splits)
qed

lemma sorted_space_b_a: "sorted_list_of_set {''a'', '' b''} = ['' b'', ''a'']"
  by simp

text \<open>
  Claim C4, as the code has it: for every vocabulary, parsing the empty string succeeds
  and returns \<open>None\<close>, not an empty set; \<open>marshall_dict\<close> replaces \<open>None\<close> and the
  empty set by the same default.
\<close>

theorem C4_empty_string_is_None:
  "FieldSetParser_call possible_fields (VStr []) = Inr None
   \<and> or_default None dflt = or_default (Some {}) dflt"
  by (simp add: FieldSetParser_call_def or_default_def)

text \<open>
  Claim C4 as stated fails: the result of parsing the empty string is not the empty set.
\<close>

theorem C4_counterexample:
  "FieldSetParser_call [''a'', ''b''] (VStr '''') \<noteq> Inr (Some {})"
  by (simp add: FieldSetParser_call_def)

text \<open>
  Claim C5: a non-empty string is split on commas into its set of tokens. If every token
  is a possible field, the set of tokens is returned; otherwise the parser fails with an
  error whose message lists exactly the unknown tokens, each once, in sorted order.
\<close>

theorem C5_parser_tokens:
  assumes "s \<noteq> []"
  shows "join '','' (split_on CHR '','' s) = s
     \<and> (\<forall>t \<in> set (split_on CHR '','' s). CHR '','' \<notin> set t)
     \<and> (set (split_on CHR '','' s) \<subseteq> set possible_fields \<longrightarrow>
          FieldSetParser_call possible_fields (VStr s) = Inr (Some (set (split_on CHR '','' s))))
     \<and> (\<not> set (split_on CHR '','' s) \<subseteq> set possible_fields \<longrightarrow>
          (\<exists>unknown.
             FieldSetParser_call possible_fields (VStr s)
               = Inl (ValueError (''Unknown fields: '' @ join '', '' unknown))
             \<and> sorted unknown \<and> distinct unknown
             \<and> set unknown = set (split_on CHR '','' s) - set possible_fields))"
proof -
  let ?tokens = "set (split_on CHR '','' s)"
  let ?unknown = "?tokens - set possible_fields"
  have fin: "finite ?unknown" by simp
  have a: "join '','' (split_on CHR '','' s) = s" by (rule split_on_join)
  have b: "\<forall>t \<in> ?tokens. CHR '','' \<notin> set t" using split_on_no_sep by blast
  have c: "?tokens \<subseteq> set possible_fields \<longrightarrow>
          FieldSetParser_call possible_fields (VStr s) = Inr (Some ?tokens)"
    using assms by (auto simp: FieldSetParser_call_def Let_def)
  have d: "\<not> ?tokens \<subseteq> set possible_fields \<longrightarrow>
          (\<exists>unknown.
             FieldSetParser_call possible_fields (VStr s)
               = Inl (ValueError (''Unknown fields: '' @ join '', '' unknown))
             \<and> sorted unknown \<and> distinct unknown \<and> set unknown = ?unknown)"
  proof
    assume "\<not> ?tokens \<subseteq> set possible_fields"
    then have ne: "?unknown \<noteq> {}" by blast
    have "FieldSetParser_call possible_fields (VStr s)
            = Inl (ValueError (''Unknown fields: '' @ join '', '' (sorted_list_of_set ?unknown)))"
      using assms ne by (simp add: FieldSetParser_call_def Let_def)
    moreover have "sorted (sorted_list_of_set ?unknown)" by simp
    moreover have "distinct (sorted_list_of_set ?unknown)" by simp
    moreover have "set (sorted_list_of_set ?unknown) = ?unknown" using fin by simp
    ultimately show "\<exists>unknown.
             FieldSetParser_call possible_fields (VStr s)
               = Inl (ValueError (''Unknown fields: '' @ join '', '' unknown))
             \<and> sorted unknown \<and> distinct unknown \<and> set unknown = ?unknown"
      by blast
  qed
  show ?thesis using a b c d by blast
qed

text \<open>
  The theorem at the string \<open>a,z\<close> and the vocabulary \<open>a\<close>, \<open>b\<close>: the parser fails and
  lists exactly \<open>z\<close>.
\<close>

theorem C5_parser_tokens_witness:
  "''a,z'' \<noteq> []
   \<and> (\<exists>unknown.
         FieldSetParser_call [''a'', ''b''] (VStr ''a,z'')
           = Inl (ValueError (''Unknown fields: '' @ join '', '' unknown))
         \<and> sorted unknown \<and> distinct unknown \<and> set unknown = {''z''})"
proof -
  have ne: "''a,z'' \<noteq> []" by simp
  have tokens: "split_on CHR '','' ''a,z'' = [''a'', ''z'']" by simp
  have diff: "set (split_on CHR '','' ''a,z'') - set [''a'', ''b''] = {''z''}"
    unfolding tokens by auto
  have "\<not> set (split_on CHR '','' ''a,z'') \<subseteq> set [''a'', ''b'']"
    unfolding tokens by simp
  with C5_parser_tokens[OF ne, of "[''a'', ''b'']"] diff ne show ?thesis
    by simp
qed

text \<open>
  Claim C10, as the code has it: tokens are compared literally, without trimming. For
  every vocabulary that contains \<open>b\<close> and does not contain the token of a space followed
  by \<open>b\<close>, parsing \<open>a, b\<close> fails, and the message reports that token with its space
  (after it \<open>a\<close>, when \<open>a\<close> is unknown too).
\<close>

theorem C10_literal_tokens:
  assumes "''b'' \<in> set possible_fields" and "'' b'' \<notin> set possible_fields"
  shows "FieldSetParser_call possible_fields (VStr ''a, b'') =
           Inl (ValueError (if ''a'' \<in> set possible_fields
                            then ''Unknown fields:  b''
                            else ''Unknown fields:  b, a''))"
proof -
  define unknown where "unknown = set (split_on CHR '','' ''a, b'') - set possible_fields"
  have call: "FieldSetParser_call possible_fields (VStr ''a, b'') =
      (if unknown \<noteq> {}
       then Inl (ValueError (''Unknown fields: '' @ join '', '' (sorted_list_of_set unknown)))
       else Inr (Some (set (split_on CHR '','' ''a, b''))))"
    unfolding unknown_def FieldSetParser_call_def Let_def by simp
  show ?thesis
  proof (cases "''a'' \<in> set possible_fields")
    case True
    then have "unknown = {'' b''}"
      unfolding unknown_def using assms(2) by auto
    then show ?thesis
      unfolding call using True by simp
  next
    case False
    then have "unknown = {''a'', '' b''}"
      unfolding unknown_def using assms(2) by auto
    then show ?thesis
      unfolding call using False by (simp add: sorted_space_b_a)
  qed
qed

text \<open>The theorem at the vocabulary \<open>a\<close>, \<open>b\<close>.\<close>

theorem C10_literal_tokens_witness:
  "''b'' \<in> set [''a'', ''b''] \<and> '' b'' \<notin> set [''a'', ''b'']
   \<and> FieldSetParser_call [''a'', ''b''] (VStr ''a, b'') = Inl (ValueError ''Unknown fields:  b'')"
  using C10_literal_tokens[of "[''a'', ''b'']"] by simp

text \<open>
  Claim C10 as stated fails for a vocabulary that also contains the token with the
  space: parsing succeeds.
\<close>

theorem C10_counterexample:
  "''b'' \<in> set [''a'', ''b'', '' b'']
   \<and> FieldSetParser_call [''a'', ''b'', '' b''] (VStr ''a, b'') = Inr (Some {''a'', '' b''})"
  by (simp add: FieldSetParser_call_def Let_def)

section \<open>ObjectMemberField\<close>

lemma hasattr_getattr:
  "py_hasattr builtin v member \<longleftrightarrow> (\<exists>raw. py_getattr builtin v member = Inr raw)"
  by (auto simp: py_hasattr_def py_getattr_def split: option.splits)

text \<open>
  Claim C3, as the code has it: \<open>format\<close> reads the named member of the source value,
  whatever the value is and whatever attributes the built-in values have. When the value
  lacks the member the result is \<open>None\<close>, whatever the configured default is, and
  nothing fails. When the member is there, its raw value is returned, after passing
  through the sub-formatter when one is configured.
\<close>

theorem C3_member_format:
  "(\<not> py_hasattr builtin v member
      \<longrightarrow> field_format builtin (ObjectMemberField member dflt attribute member_field) v
            = Inr VNone)
   \<and> (py_getattr builtin v member = Inr raw
      \<longrightarrow> field_format builtin (ObjectMemberField member dflt attribute None) v = Inr raw
        \<and> field_format builtin (ObjectMemberField member dflt attribute (Some sub_formatter)) v
            = field_format builtin sub_formatter raw)"
  using hasattr_getattr[of builtin v member] by auto

text \<open>
  The theorem at an object without the member \<open>test\<close> and a default that is not
  \<open>None\<close>; at an object whose member \<open>test\<close> is 2, without a sub-formatter and with one
  that wraps the value in a list; and at the integer 5 and its built-in member \<open>real\<close>.
\<close>

theorem C3_member_format_witness:
  "\<not> py_hasattr int_attrs (VObj [(''other'', VInt 1)]) ''test''
   \<and> field_format int_attrs (ObjectMemberField ''test'' (VStr ''n/a'') None None)
        (VObj [(''other'', VInt 1)])
       = Inr VNone
   \<and> py_getattr int_attrs (VObj [(''test'', VInt 2)]) ''test'' = Inr (VInt 2)
   \<and> field_format int_attrs (ObjectMemberField ''test'' VNone None None)
        (VObj [(''test'', VInt 2)])
       = Inr (VInt 2)
   \<and> field_format int_attrs
        (ObjectMemberField ''test'' VNone None
           (Some (ScalarField (\<lambda>v. Inr (VList [v])) VNone None)))
        (VObj [(''test'', VInt 2)])
       = Inr (VList [VInt 2])
   \<and> py_getattr int_attrs (VInt 5) ''real'' = Inr (VInt 5)
   \<and> field_format int_attrs (ObjectMemberField ''real'' VNone None None) (VInt 5)
       = Inr (VInt 5)"
proof -
  have lacks: "\<not> py_hasattr int_attrs (VObj [(''other'', VInt 1)]) ''test''"
    by (simp add: py_hasattr_def lookup_attribute_def)
  have has: "py_getattr int_attrs (VObj [(''test'', VInt 2)]) ''test'' = Inr (VInt 2)"
    by (simp add: py_getattr_def lookup_attribute_def)
  have real: "py_getattr int_attrs (VInt 5) ''real'' = Inr (VInt 5)"
    by (simp add: py_getattr_def lookup_attribute_def int_attrs_def)
  from C3_member_format[of int_attrs "VObj [(''other'', VInt 1)]" "''test''" "VStr ''n/a''"
         None None]
    C3_member_format[of int_attrs "VObj [(''test'', VInt 2)]" "''test''" VNone None None
      "VInt 2" "ScalarField (\<lambda>v. Inr (VList [v])) VNone None"]
    C3_member_format[of int_attrs "VInt 5" "''real''" VNone None None "VInt 5"]
    lacks has real
  show ?thesis by simp
qed

text \<open>
  Claim C3 as stated fails: with the default \<open>n/a\<close> and an object that lacks the member,
  the result is not the default.
\<close>

theorem C3_counterexample:
  "field_format int_attrs (ObjectMemberField ''test'' (VStr ''n/a'') None None)
     (VObj [(''other'', VInt 1)])
     \<noteq> Inr (VStr ''n/a'')"
  by (simp add: py_hasattr_def lookup_attribute_def)

section \<open>Defaults\<close>

text \<open>
  Claim C6: the default fields are the configured \<open>default_fields\<close> when the meta
  object configures them, so none for the empty list, and all the field names when there
  is no meta object or it leaves them unconfigured; the default embedded fields are the
  configured \<open>default_embedd\<close>, or else all the nested names.
\<close>

theorem C6_default_sets:
  "(meta self = Some m \<and> default_fields m = Some names
        \<longrightarrow> find_default_fields self = set names)
   \<and> (meta self = Some m \<and> default_fields m = Some []
        \<longrightarrow> find_default_fields self = {})
   \<and> (meta self = None \<or> (meta self = Some m \<and> default_fields m = None)
        \<longrightarrow> find_default_fields self = set (map fst (created_fields self)))
   \<and> (meta self = Some m \<and> default_embedd m = Some embedd_names
        \<longrightarrow> find_default_embedd self = set embedd_names)
   \<and> (meta self = Some m \<and> default_embedd m = Some []
        \<longrightarrow> find_default_embedd self = {})
   \<and> (meta self = None \<or> (meta self = Some m \<and> default_embedd m = None)
        \<longrightarrow> find_default_embedd self = set (find_nested self))"
  by (cases "meta self") (simp_all add: find_default_fields_def find_default_embedd_def)

lemma ex_meta: "meta (example_schema fi fn fe foi m) = m"
  by (simp add: example_schema_def)

text \<open>
  The theorem at the example schema, once with both defaults configured as the empty
  list and once with the default meta object.
\<close>

theorem C6_default_sets_witness:
  "find_default_fields (example_schema Raw_format Raw_format Raw_format Raw_format
       (Some (DefaultMeta\<lparr>default_fields := Some [], default_embedd := Some []\<rparr>))) = {}
   \<and> find_default_embedd (example_schema Raw_format Raw_format Raw_format Raw_format
       (Some (DefaultMeta\<lparr>default_fields := Some [], default_embedd := Some []\<rparr>))) = {}
   \<and> find_default_fields (example_schema Raw_format Raw_format Raw_format Raw_format
       (Some DefaultMeta)) = {''id'', ''name'', ''owner''}
   \<and> find_default_embedd (example_schema Raw_format Raw_format Raw_format Raw_format
       (Some DefaultMeta)) = {''owner''}"
proof -
  let ?m = "DefaultMeta\<lparr>default_fields := Some [], default_embedd := Some []\<rparr>"
  let ?e = "example_schema Raw_format Raw_format Raw_format Raw_format"
  have keys: "set (map fst (created_fields (?e (Some DefaultMeta)))) = {''id'', ''name'', ''owner''}"
    by (simp add: example_schema_def)
  have nested: "set (find_nested (?e (Some DefaultMeta))) = {''owner''}"
    by (simp add: find_nested_def example_schema_def)
  from C6_default_sets[of "?e (Some ?m)" ?m "[]" "[]"]
    C6_default_sets[of "?e (Some DefaultMeta)" DefaultMeta]
    keys nested
  show ?thesis
    by (simp add: ex_meta DefaultMeta_def)
qed

lemma or_default_idem: "or_default (Some dflt) dflt = dflt"
  by (simp add: or_default_def)

lemma or_default_None: "or_default None dflt = dflt"
  by (simp add: or_default_def)

lemma or_default_empty: "or_default (Some {}) dflt = dflt"
  by (simp add: or_default_def)

text \<open>
  Claim C7: for every fieldset, \<open>marshall_dict\<close> with unset selections, and with empty
  selections, gives what it gives with the default fields and the default embedded
  fields passed explicitly, be it a marshalling dict or an exception.
\<close>

theorem C7_default_fallback:
  "marshall_dict self None None
     = marshall_dict self (Some (find_default_fields self)) (Some (find_default_embedd self))
   \<and> marshall_dict self (Some {}) (Some {})
     = marshall_dict self (Some (find_default_fields self)) (Some (find_default_embedd self))"
proof (cases self)
  case (Fieldset flds m)
  show ?thesis
    unfolding Fieldset marshall_dict.simps
    by (simp only: Let_def or_default_idem or_default_None or_default_empty)
qed

section \<open>All field names\<close>

text \<open>
  Claim C8: for every fieldset, \<open>all_field_names\<close> contains every name of a direct
  field, and for every nested name \<open>n\<close> and every path \<open>p\<close> in the \<open>all_field_names\<close> of
  its nested fieldset, the dotted path of \<open>n\<close> and \<open>p\<close>.
\<close>

theorem C8_all_field_paths:
  "set (map fst (created_fields self)) \<subseteq> set (all_field_names self)
   \<and> (\<forall>n \<in> set (find_nested self). \<forall>f nfs.
         map_of (created_fields self) n = Some f \<and> nested_fieldset_of f = Inr (Some nfs)
         \<longrightarrow> (\<forall>p \<in> set (all_field_names nfs). n @ ''.'' @ p \<in> set (all_field_names self)))"
proof (cases self)
  case (Fieldset flds m)
  have direct: "set (map fst flds) \<subseteq> set (all_field_names (Fieldset flds m))"
    by (simp add: find_fields_all.simps[of flds m])
  have nested: "n @ ''.'' @ p \<in> set (all_field_names (Fieldset flds m))"
    if n: "n \<in> set (find_nested (Fieldset flds m))"
      and f: "map_of flds n = Some f"
      and nfs: "nested_fieldset_of f = Inr (Some nfs)"
      and p: "p \<in> set (all_field_names nfs)"
    for n f nfs p
  proof -
    let ?children = "\<lambda>name.
        case map_of flds name of
          None \<Rightarrow> []
        | Some nested_field \<Rightarrow>
            (case nested_fieldset_of nested_field of
               Inr (Some nfs) \<Rightarrow>
                 map (\<lambda>nested_field_name. name @ ''.'' @ nested_field_name)
                     (find_fields_all nfs)
             | _ \<Rightarrow> [])"
    have "n @ ''.'' @ p \<in> set (?children n)"
      using f nfs p by simp
    then have "n @ ''.'' @ p \<in> set (concat (map ?children (find_nested (Fieldset flds m))))"
      using n by auto
    then show ?thesis
      by (simp only: find_fields_all.simps[of flds m] set_append) simp
  qed
  show ?thesis
    unfolding Fieldset using direct nested by (simp only: fieldset.sel) blast
qed

text \<open>
  The theorem at the example schema, whose nested name is \<open>owner\<close>: the path
  \<open>owner.email\<close> and the direct name \<open>name\<close> are field names.
\<close>

theorem C8_all_field_paths_witness:
  "''owner'' \<in> set (find_nested (example_schema Raw_format Raw_format Raw_format Raw_format
                                    (Some DefaultMeta)))
   \<and> ''email'' \<in> set (all_field_names (owner_schema Raw_format Raw_format))
   \<and> ''owner.email'' \<in> set (all_field_names (example_schema Raw_format Raw_format Raw_format
                                    Raw_format (Some DefaultMeta)))
   \<and> ''name'' \<in> set (all_field_names (example_schema Raw_format Raw_format Raw_format
                                    Raw_format (Some DefaultMeta)))"
proof -
  let ?s = "example_schema Raw_format Raw_format Raw_format Raw_format (Some DefaultMeta)"
  let ?o = "owner_schema Raw_format Raw_format"
  have n: "''owner'' \<in> set (find_nested ?s)"
    by (simp add: find_nested_def example_schema_def)
  have f: "map_of (created_fields ?s) ''owner''
             = Some (OptionalNestedField (Some ?o) (Some ''id'') VNone None False None)"
    by (simp add: example_schema_def)
  have nfs: "nested_fieldset_of (OptionalNestedField (Some ?o) (Some ''id'') VNone None False None)
               = Inr (Some ?o)"
    by (simp add: nested_fieldset_of_def)
  have p: "''email'' \<in> set (all_field_names ?o)"
    by (simp add: owner_schema_def)
  have k: "''name'' \<in> set (map fst (created_fields ?s))"
    by (simp add: example_schema_def)
  from C8_all_field_paths[of ?s] n f nfs p k show ?thesis
    by auto
qed

section \<open>The marshalling dict\<close>

text \<open>
  Evaluation of \<open>filtered\<close> on an explicit set, and the unfolding that evaluates
  \<open>marshall_dict\<close> on the example schema.
\<close>

lemma filtered_empty: "filtered {} field = {}"
  by (simp add: filtered_def)

lemma filtered_insert:
  "filtered (insert p paths) field =
     (if has_dot p \<and> fst (split_dot p) = field
      then insert (snd (split_dot p)) (filtered paths field)
      else filtered paths field)"
  by (auto simp: filtered_def)

lemmas plan_eval = find_nested_def or_default_def find_default_fields_def
  find_default_embedd_def filtered_empty filtered_insert has_dot_def split_dot_def Let_def
  example_schema_def owner_schema_def DefaultMeta_def

lemma ex_all: "all_field_names (example_schema fi fn fe foi m)
    = [''id'', ''name'', ''owner'', ''owner.email'', ''owner.id'']"
  by (simp add: plan_eval nested_fieldset_of_def)

lemma ex_nested: "nested_field_names (example_schema fi fn fe foi m) = [''owner'']"
  by (simp add: plan_eval nested_fieldset_of_def)

text \<open>
  The keys of a marshalling dict are the selected names that are names of fields.
\<close>

lemma collect_map_fst:
  "collect (map g xs) = Inr ys \<Longrightarrow> (\<And>x y. x \<in> set xs \<Longrightarrow> g x = Inr y \<Longrightarrow> fst y = x)
     \<Longrightarrow> map fst ys = xs"
proof (induction xs arbitrary: ys)
  case Nil
  then show ?case by simp
next
  case (Cons x xs)
  from Cons.prems(1) obtain y ys' where
    y: "g x = Inr y" and ys': "collect (map g xs) = Inr ys'" and ys: "ys = y # ys'"
    by (auto split: sum.splits)
  have "fst y = x" using Cons.prems(2)[of x y] y by simp
  moreover have "map fst ys' = xs"
    using Cons.IH[OF ys'] Cons.prems(2) by simp
  ultimately show ?case using ys by simp
qed

lemma marshall_dict_keys:
  assumes "marshall_dict self selected_fields selected_embed = Inr plan"
  shows "map fst plan =
           filter (\<lambda>name. name \<in> or_default selected_fields (find_default_fields self))
                  (map fst (created_fields self))"
proof (cases self)
  case (Fieldset flds m)
  have keep: "filter (\<lambda>name. name \<in> S \<inter> set (map fst flds)) (map fst flds)
                = filter (\<lambda>name. name \<in> S) (map fst flds)" for S :: "string set"
    by (rule filter_cong) auto
  show ?thesis
    using assms unfolding Fieldset marshall_dict.simps Let_def
    apply (drule_tac collect_map_fst)
     apply (auto split: option.splits sum.splits if_splits field.splits prod.splits)[1]
    apply (simp only: keep fieldset.sel)
    done
qed

lemma split_dot_dotted: "\<not> has_dot f \<Longrightarrow> split_dot (f @ ''.'' @ c) = (f, c)"
  by (induction f) (auto simp: split_dot_def has_dot_def)

lemma has_dot_dotted: "has_dot (f @ ''.'' @ c)"
  by (simp add: has_dot_def)

lemma filtered_remove_other:
  assumes "has_dot p" and "fst (split_dot p) \<noteq> g"
  shows "filtered (S - {p}) g = filtered S g"
  using assms by (auto simp: filtered_def image_iff)

text \<open>
  Claim C9: when the selected fields contain a dotted path \<open>f.c\<close> and not \<open>f\<close> itself,
  a marshalling dict that is built has no entry for \<open>f\<close>. The dotted path is dropped
  without any effect: where \<open>f\<close> is a name without a dot, the path is not itself the name
  of a field and other selected fields remain, the result, dict or exception, is that of
  the selection without the path; and where no selected name is the name of a field, the
  marshalling dict is empty.
\<close>

theorem C9_dotted_without_parent:
  assumes "f @ ''.'' @ c \<in> selected_fields" and "f \<notin> selected_fields"
  shows "(\<forall>plan. marshall_dict self (Some selected_fields) selected_embed = Inr plan
            \<longrightarrow> f \<notin> fst ` set plan)
     \<and> (\<not> has_dot f \<and> f @ ''.'' @ c \<notin> set (map fst (created_fields self))
          \<and> selected_fields - {f @ ''.'' @ c} \<noteq> {}
          \<longrightarrow> marshall_dict self (Some selected_fields) selected_embed
              = marshall_dict self (Some (selected_fields - {f @ ''.'' @ c})) selected_embed)
     \<and> (selected_fields \<inter> set (map fst (created_fields self)) = {}
          \<longrightarrow> marshall_dict self (Some selected_fields) selected_embed = Inr [])"
proof -
  let ?p = "f @ ''.'' @ c"
  have ne: "selected_fields \<noteq> {}" using assms(1) by auto
  have a: "f \<notin> fst ` set plan"
    if "marshall_dict self (Some selected_fields) selected_embed = Inr plan" for plan
  proof -
    have "map fst plan = filter (\<lambda>name. name \<in> selected_fields) (map fst (created_fields self))"
      using marshall_dict_keys[OF that] ne by (simp add: or_default_def)
    then have "set (map fst plan) \<subseteq> selected_fields" by auto
    then show ?thesis using assms(2) by auto
  qed
  have b: "marshall_dict self (Some selected_fields) selected_embed
              = marshall_dict self (Some (selected_fields - {?p})) selected_embed"
    if nodot: "\<not> has_dot f" and nokey: "?p \<notin> set (map fst (created_fields self))"
      and ne': "selected_fields - {?p} \<noteq> {}"
  proof (cases self)
    case (Fieldset flds m)
    let ?S = "selected_fields" and ?S' = "selected_fields - {?p}"
    let ?K = "set (map fst flds)"
    have nokey': "?p \<notin> ?K" using nokey Fieldset by simp
    have "(S - {p}) \<inter> K = S \<inter> K" if "p \<notin> K" for S K :: "string set" and p
      using that by blast
    from this[OF nokey'] have direct: "?S' \<inter> ?K = ?S \<inter> ?K" .
    have od: "or_default (Some ?S) d = ?S" "or_default (Some ?S') d = ?S'" for d
      using ne ne' by (simp_all add: or_default_def)
    have filt: "filtered (?S - {?p} - ?S \<inter> ?K) g = filtered (?S - ?S \<inter> ?K) g"
      if "g \<in> ?S" for g
    proof -
      have "g \<noteq> f" using that assms(2) by auto
      then have other: "fst (split_dot ?p) \<noteq> g" using split_dot_dotted[OF nodot] by simp
      have "?S - {?p} - ?S \<inter> ?K = (?S - ?S \<inter> ?K) - {?p}" by blast
      then show ?thesis
        using filtered_remove_other[OF has_dot_dotted other, of "?S - ?S \<inter> ?K"] by simp
    qed
    show ?thesis
      unfolding Fieldset marshall_dict.simps Let_def od
      apply (rule arg_cong[where f = collect])
      apply (rule map_cong)
       apply (simp only: direct)
      apply (simp only: direct)
      apply (subgoal_tac "x \<in> selected_fields")
       apply (simp only: filt)
      apply simp
      done
  qed
  have c: "marshall_dict self (Some selected_fields) selected_embed = Inr []"
    if none: "selected_fields \<inter> set (map fst (created_fields self)) = {}"
  proof (cases self)
    case (Fieldset flds m)
    have "filter (\<lambda>name. name \<in> selected_fields \<inter> set (map fst flds)) (map fst flds) = []"
      using none Fieldset by simp
    then show ?thesis
      unfolding Fieldset marshall_dict.simps Let_def
      using ne by (simp add: or_default_def)
  qed
  show ?thesis using a b c by blast
qed

text \<open>
  The theorem at the example schema with the fields \<open>name\<close> and \<open>owner.email\<close> selected:
  the marshalling dict has the one entry \<open>name\<close>, as it has with \<open>name\<close> alone.
\<close>

theorem C9_dotted_without_parent_witness:
  "''owner'' @ ''.'' @ ''email'' \<in> {''name'', ''owner.email''}
   \<and> ''owner'' \<notin> {''name'', ''owner.email''}
   \<and> marshall_dict (example_schema Raw_format Raw_format Raw_format Raw_format (Some DefaultMeta))
        (Some {''name'', ''owner.email''}) (Some {''owner''})
      = Inr [(''name'', Some (ScalarField Raw_format VNone None))]
   \<and> ''owner'' \<notin> fst ` set [(''name'', Some (ScalarField Raw_format VNone None))]
   \<and> marshall_dict (example_schema Raw_format Raw_format Raw_format Raw_format (Some DefaultMeta))
        (Some {''name'', ''owner.email''}) (Some {''owner''})
      = marshall_dict (example_schema Raw_format Raw_format Raw_format Raw_format (Some DefaultMeta))
        (Some {''name''}) (Some {''owner''})"
proof -
  let ?s = "example_schema Raw_format Raw_format Raw_format Raw_format (Some DefaultMeta)"
  have plan: "marshall_dict ?s (Some {''name'', ''owner.email''}) (Some {''owner''})
      = Inr [(''name'', Some (ScalarField Raw_format VNone None))]"
    by (simp add: plan_eval)
  have nodot: "\<not> has_dot ''owner''" by (simp add: has_dot_def)
  have nokey: "''owner'' @ ''.'' @ ''email'' \<notin> set (map fst (created_fields ?s))"
    by (simp add: example_schema_def)
  have rest: "{''name'', ''owner.email''} - {''owner'' @ ''.'' @ ''email''} = {''name''}"
    by auto
  from C9_dotted_without_parent[of "''owner''" "''email''" "{''name'', ''owner.email''}" ?s
         "Some {''owner''}"] plan nodot nokey rest
  show ?thesis by simp
qed

text \<open>
  Claim C2, as the code has it. For the example schema, with \<open>owner\<close> selected: when
  the meta object configures no default embedding, an empty embed selection gives the
  reference key for \<open>owner\<close>, an \<open>ObjectMemberField\<close> that extracts the \<open>id\<close> of the
  owner; selecting \<open>owner\<close> for embedding gives a nested field whose dict is the
  default of the nested fieldset, \<open>email\<close> and \<open>id\<close>; and with the default meta
  object an empty embed selection falls back to all nested names, so it gives that same
  nested field and not the reference key.
\<close>

theorem C2_render_plan:
  "marshall_dict (example_schema fi fn fe foi (Some (DefaultMeta\<lparr>default_embedd := Some []\<rparr>)))
       (Some {''owner''}) (Some {})
     = Inr [(''owner'', Some (ObjectMemberField ''id'' VNone None None))]
   \<and> field_output builtin (ObjectMemberField ''id'' VNone None None) (KStr ''owner'') bob_object
     = Inr (VInt 9)
   \<and> marshall_dict (example_schema fi fn fe foi m) (Some {''owner''}) (Some {''owner''})
     = Inr [(''owner'', Some (NestedField [(''email'', Some (ScalarField fe VNone None)),
                                           (''id'', Some (ScalarField foi VNone None))]
                                          None VNone False))]
   \<and> marshall_dict (example_schema fi fn fe foi (Some DefaultMeta)) (Some {''owner''}) (Some {})
     = marshall_dict (example_schema fi fn fe foi (Some DefaultMeta))
         (Some {''owner''}) (Some {''owner''})"
proof -
  have a: "marshall_dict (example_schema fi fn fe foi (Some (DefaultMeta\<lparr>default_embedd := Some []\<rparr>)))
       (Some {''owner''}) (Some {})
     = Inr [(''owner'', Some (ObjectMemberField ''id'' VNone None None))]"
    by (simp add: plan_eval)
  have b: "field_output builtin (ObjectMemberField ''id'' VNone None None) (KStr ''owner'')
             bob_object
     = Inr (VInt 9)"
    by (simp add: bob_object_def get_value_def get_value_for_key_def source_key_def
        py_hasattr_def py_getattr_def py_getattr_default_def lookup_attribute_def)
  have c: "marshall_dict (example_schema fi fn fe foi m) (Some {''owner''}) (Some {''owner''})
     = Inr [(''owner'', Some (NestedField [(''email'', Some (ScalarField fe VNone None)),
                                           (''id'', Some (ScalarField foi VNone None))]
                                          None VNone False))]" for m
    by (simp add: plan_eval)
  have d: "marshall_dict (example_schema fi fn fe foi (Some DefaultMeta)) (Some {''owner''}) (Some {})
     = Inr [(''owner'', Some (NestedField [(''email'', Some (ScalarField fe VNone None)),
                                           (''id'', Some (ScalarField foi VNone None))]
                                          None VNone False))]"
    by (simp add: plan_eval)
  show ?thesis using a b c d by simp
qed

text \<open>
  Claim C2 as stated fails: with the default meta object, \<open>owner\<close> selected and an
  empty embed selection, the marshalling dict does not hold the reference key.
\<close>

theorem C2_counterexample:
  "marshall_dict (example_schema Raw_format Raw_format Raw_format Raw_format (Some DefaultMeta))
       (Some {''owner''}) (Some {})
     \<noteq> Inr [(''owner'', Some (ObjectMemberField ''id'' VNone None None))]"
  by (simp add: plan_eval)

section \<open>End to end\<close>

text \<open>
  The example schema parses a request with both parameters present and valid into the
  two sets of tokens.
\<close>

lemma parse_example:
  "set (split_on CHR '','' fields_arg) \<subseteq> set [''id'', ''name'', ''owner'', ''owner.email'', ''owner.id'']
   \<Longrightarrow> set (split_on CHR '','' embedd_arg) \<subseteq> set [''owner'']
   \<Longrightarrow> fields_arg \<noteq> [] \<Longrightarrow> embedd_arg \<noteq> []
   \<Longrightarrow> parse_request_overrides (example_schema fi fn fe foi (Some DefaultMeta))
         (selection_request fields_arg embedd_arg)
       = Inr (Some (set (split_on CHR '','' fields_arg)), Some (set (split_on CHR '','' embedd_arg)))"
  unfolding parse_request_overrides_def ex_meta ex_all ex_nested selection_request_def
    parse_argument_def FieldSetParser_call_def DefaultMeta_def Let_def
  by (simp del: split_on.simps set_simps)

lemmas marshal_eval = get_value_def get_value_for_key_def source_key_def bob_dict_def
  bob_object_def py_getattr_default_def lookup_attribute_def

text \<open>
  Claim C1, as the code has it: for the example schema, whose formats of \<open>name\<close> and
  \<open>email\<close> return these two strings unchanged, marshalling the example object under
  the request \<open>fields=name,owner,owner.email\<close> and \<open>embedd=owner\<close> gives the mapping of
  \<open>name\<close> to \<open>Bob\<close> and of \<open>owner\<close> to the mapping of \<open>email\<close> to \<open>a@b.c\<close>: the
  owner is embedded as an object with exactly the requested nested field. The handler's
  result may be bare or a tuple, the object a dict or an object with attributes.
\<close>

theorem C1_end_to_end:
  assumes "name_format (VStr ''Bob'') = Inr (VStr ''Bob'')"
    and "email_format (VStr ''a@b.c'') = Inr (VStr ''a@b.c'')"
  shows "wrapper builtin (example_schema id_format name_format email_format owner_id_format
                    (Some DefaultMeta))
           (selection_request ''name,owner,owner.email'' ''owner'') (Bare bob_dict)
         = Inr (Bare (VDict [(''name'', VStr ''Bob''),
                             (''owner'', VDict [(''email'', VStr ''a@b.c'')])]))
     \<and> wrapper builtin (example_schema id_format name_format email_format owner_id_format
                    (Some DefaultMeta))
           (selection_request ''name,owner,owner.email'' ''owner'') (Tuple bob_object code headers)
         = Inr (Tuple (VDict [(''name'', VStr ''Bob''),
                              (''owner'', VDict [(''email'', VStr ''a@b.c'')])]) code headers)"
proof -
  let ?s = "example_schema id_format name_format email_format owner_id_format (Some DefaultMeta)"
  have parsed: "parse_request_overrides ?s (selection_request ''name,owner,owner.email'' ''owner'')
      = Inr (Some {''name'', ''owner'', ''owner.email''}, Some {''owner''})"
    using parse_example[of "''name,owner,owner.email''" "''owner''"] by simp
  have plan: "marshall_dict ?s (Some {''name'', ''owner'', ''owner.email''}) (Some {''owner''})
     = Inr [(''name'', Some (ScalarField name_format VNone None)),
            (''owner'', Some (NestedField [(''email'', Some (ScalarField email_format VNone None))]
                                          None VNone False))]"
    by (simp add: plan_eval)
  have out: "marshal builtin data
       [(''name'', Some (ScalarField name_format VNone None)),
        (''owner'', Some (NestedField [(''email'', Some (ScalarField email_format VNone None))]
                                      None VNone False))]
     = Inr (VDict [(''name'', VStr ''Bob''), (''owner'', VDict [(''email'', VStr ''a@b.c'')])])"
    if "data = bob_dict \<or> data = bob_object" for data
    using that assms by (auto simp: marshal_eval)
  show ?thesis
    unfolding wrapper_def parsed using plan out by simp
qed

text \<open>The theorem for the format of \<open>fields.Raw\<close> in all four scalar fields.\<close>

theorem C1_end_to_end_witness:
  "Raw_format (VStr ''Bob'') = Inr (VStr ''Bob'')
   \<and> Raw_format (VStr ''a@b.c'') = Inr (VStr ''a@b.c'')
   \<and> wrapper int_attrs
        (example_schema Raw_format Raw_format Raw_format Raw_format (Some DefaultMeta))
        (selection_request ''name,owner,owner.email'' ''owner'') (Bare bob_dict)
      = Inr (Bare (VDict [(''name'', VStr ''Bob''),
                          (''owner'', VDict [(''email'', VStr ''a@b.c'')])]))"
  using C1_end_to_end[of Raw_format Raw_format int_attrs Raw_format Raw_format]
  by (simp add: Raw_format_def)

text \<open>
  Claim C1 as stated fails: under the request \<open>fields=name,owner.email\<close> and
  \<open>embedd=owner\<close>, where \<open>owner\<close> itself is not selected, the output has the one entry
  \<open>name\<close> and no \<open>owner\<close>.
\<close>

theorem C1_counterexample:
  "wrapper int_attrs
     (example_schema Raw_format Raw_format Raw_format Raw_format (Some DefaultMeta))
     (selection_request ''name,owner.email'' ''owner'') (Bare bob_dict)
     = Inr (Bare (VDict [(''name'', VStr ''Bob'')]))
   \<and> wrapper int_attrs
     (example_schema Raw_format Raw_format Raw_format Raw_format (Some DefaultMeta))
     (selection_request ''name,owner.email'' ''owner'') (Bare bob_dict)
     \<noteq> Inr (Bare (VDict [(''name'', VStr ''Bob''),
                          (''owner'', VDict [(''email'', VStr ''a@b.c'')])]))"
proof -
  let ?s = "example_schema Raw_format Raw_format Raw_format Raw_format (Some DefaultMeta)"
  have parsed: "parse_request_overrides ?s (selection_request ''name,owner.email'' ''owner'')
      = Inr (Some {''name'', ''owner.email''}, Some {''owner''})"
    using parse_example[of "''name,owner.email''" "''owner''"] by simp
  have plan: "marshall_dict ?s (Some {''name'', ''owner.email''}) (Some {''owner''})
     = Inr [(''name'', Some (ScalarField Raw_format VNone None))]"
    by (simp add: plan_eval)
  have out: "marshal int_attrs bob_dict [(''name'', Some (ScalarField Raw_format VNone None))]
     = Inr (VDict [(''name'', VStr ''Bob'')])"
    by (simp add: marshal_eval Raw_format_def)
  show ?thesis
    unfolding wrapper_def parsed using plan out by simp
qed

end
